theory Spec2Isabelle
  imports Main
begin

section \<open>The organization router (src/features/organization.js)\<close>

text \<open>
  The file builds one Express router and registers four routes on it.  Every handler is an
  arrow function of the request and the response object whose body is a single chain
  \<^verbatim>\<open>res.status(300).send(...)\<close>.  The model below keeps the request and the response as
  records, the handlers as functions from the request and the response object to the
  response that has been sent, and the router as the list of its routes in registration
  order.
\<close>

subsection \<open>Requests and responses\<close>

datatype http_method = GET | HEAD | POST | PUT | PATCH | DELETE | OPTIONS

text \<open>
  A request as a handler sees it: the method, the path below the mount point of the
  router, the path parameters that the router fills in (\<^verbatim>\<open>req.params\<close>) and the body.
  The record is extensible, so a statement about every request also covers requests with
  further fields (headers, query, cookies).
\<close>

record request =
  req_method :: http_method
  req_path :: string
  req_params :: "string \<rightharpoonup> string"
  req_body :: "string option"

text \<open>
  The response object: \<open>statusCode\<close> is the field that \<^verbatim>\<open>res.status\<close> assigns, and
  \<open>sent_body\<close> is the argument of \<^verbatim>\<open>res.send\<close> (\<open>None\<close> as long as nothing was sent).
\<close>

record response =
  statusCode :: nat
  sent_body :: "string option"

definition status :: "nat \<Rightarrow> response \<Rightarrow> response" where
  "status code res = res\<lparr>statusCode := code\<rparr>"

definition send :: "string \<Rightarrow> response \<Rightarrow> response" where
  "send chunk res = res\<lparr>sent_body := Some chunk\<rparr>"

text \<open>
  A template literal converts the interpolated value to a string; a property that is
  absent from \<^verbatim>\<open>req.params\<close> is \<^verbatim>\<open>undefined\<close> and prints as that word.
\<close>

fun interpolate :: "string option \<Rightarrow> string" where
  "interpolate None = ''undefined''"
| "interpolate (Some s) = s"

subsection \<open>The four handlers\<close>

definition get_organizations :: "'a request_scheme \<Rightarrow> response \<Rightarrow> response" where
  "get_organizations req res = send ''get organization'' (status 300 res)"

definition post_organizations :: "'a request_scheme \<Rightarrow> response \<Rightarrow> response" where
  "post_organizations req res = send ''create organization'' (status 300 res)"

definition get_organization_by_id :: "'a request_scheme \<Rightarrow> response \<Rightarrow> response" where
  "get_organization_by_id req res =
     (let organizationId = req_params req ''organizationId''
      in send (''API underconstruction '' @ interpolate organizationId) (status 300 res))"

definition patch_organizations :: "'a request_scheme \<Rightarrow> response \<Rightarrow> response" where
  "patch_organizations req res = send ''update organization'' (status 300 res)"

subsection \<open>The route table\<close>

record 'a route =
  route_method :: http_method
  route_path :: string
  route_handle :: "'a request_scheme \<Rightarrow> response \<Rightarrow> response"

definition router :: "'a route list" where
  "router =
    [\<lparr>route_method = GET, route_path = ''/api/v1/organizations'',
      route_handle = get_organizations\<rparr>,
     \<lparr>route_method = POST, route_path = ''/api/v1/organizations'',
      route_handle = post_organizations\<rparr>,
     \<lparr>route_method = GET, route_path = ''/api/v1/organizations/:organizationId'',
      route_handle = get_organization_by_id\<rparr>,
     \<lparr>route_method = PATCH, route_path = ''/api/v1/organizations'',
      route_handle = patch_organizations\<rparr>]"

subsection \<open>How the framework dispatches a request to a route\<close>

text \<open>
  The file does not contain the framework.  What follows is the dispatch of an Express
  router created with its default options, restricted to the route patterns this file
  uses (literal segments and \<^verbatim>\<open>:name\<close> segments):
  \<^item> a route registered for GET also serves HEAD;
  \<^item> the pattern and the path are compared segment by segment, literal segments without
    regard to the case of ASCII letters, a \<^verbatim>\<open>:name\<close> segment against any non-empty
    segment, and one trailing slash of the path is optional;
  \<^item> the captured segments are decoded with the runtime's \<^verbatim>\<open>decodeURIComponent\<close>, which
    is a parameter here (\<open>None\<close> where it throws); a failed decoding is remembered, no
    later route is entered, and the error is passed on;
  \<^item> routes are tried in registration order, and since no handler of this file calls
    \<^verbatim>\<open>next\<close>, the first route that matches path and method ends the dispatch;
  \<^item> for an OPTIONS request, every route that matches the path but not the method adds
    its methods (a GET route also adds HEAD) to a list without duplicates; when no route
    has answered, no decoding has failed and the list is not empty, the router itself
    answers: it leaves the status code as it is, puts the list, joined by commas, into
    the \<^verbatim>\<open>Allow\<close> header and sends the same string as the body.
  The response record has no headers, so of this last reply the status code and the body
  are kept.
\<close>

definition to_lower :: "char \<Rightarrow> char" where
  "to_lower c =
     (let n = (of_char c :: nat) in if 65 \<le> n \<and> n \<le> 90 then char_of (n + 32) else c)"

fun split_path :: "string \<Rightarrow> string list" where
  "split_path [] = [[]]"
| "split_path (c # cs) =
     (if c = CHR ''/'' then [] # split_path cs
      else (case split_path cs of [] \<Rightarrow> [[c]] | s # ss \<Rightarrow> (c # s) # ss))"

datatype token = Lit string | Param string

fun compile_segment :: "string \<Rightarrow> token" where
  "compile_segment [] = Lit []"
| "compile_segment (c # cs) = (if c = CHR '':'' then Param cs else Lit (c # cs))"

definition compile_path :: "string \<Rightarrow> token list" where
  "compile_path p = map compile_segment (split_path p)"

fun match_segments :: "token list \<Rightarrow> string list \<Rightarrow> (string \<times> string) list option" where
  "match_segments [] [] = Some []"
| "match_segments (Lit l # ts) (s # ss) =
     (if map to_lower l = map to_lower s then match_segments ts ss else None)"
| "match_segments (Param n # ts) (s # ss) =
     (if s = [] then None
      else (case match_segments ts ss of None \<Rightarrow> None | Some kvs \<Rightarrow> Some ((n, s) # kvs)))"
| "match_segments _ _ = None"

definition match_path :: "token list \<Rightarrow> string \<Rightarrow> (string \<times> string) list option" where
  "match_path ts p =
     (let ss = split_path p in
      case match_segments ts ss of
        Some kvs \<Rightarrow> Some kvs
      | None \<Rightarrow> if ss \<noteq> [] \<and> last ss = [] then match_segments ts (butlast ss) else None)"

fun decode_params ::
  "(string \<Rightarrow> string option) \<Rightarrow> (string \<rightharpoonup> string) \<Rightarrow> (string \<times> string) list
     \<Rightarrow> (string \<rightharpoonup> string) option" where
  "decode_params dec m [] = Some m"
| "decode_params dec m ((n, v) # kvs) =
     (case dec v of None \<Rightarrow> None | Some v' \<Rightarrow> decode_params dec (m(n \<mapsto> v')) kvs)"

definition handles_method :: "'a route \<Rightarrow> http_method \<Rightarrow> bool" where
  "handles_method r m = (route_method r = m \<or> (m = HEAD \<and> route_method r = GET))"

definition route_matches :: "'a route \<Rightarrow> http_method \<Rightarrow> string \<Rightarrow> bool" where
  "route_matches r m p =
     (handles_method r m \<and> match_path (compile_path (route_path r)) p \<noteq> None)"

datatype outcome = Responded response | Unhandled | ParamError

text \<open>The methods a route contributes to the automatic reply to OPTIONS.\<close>

definition route_options :: "'a route \<Rightarrow> http_method list" where
  "route_options r = (if route_method r = GET then [GET, HEAD] else [route_method r])"

fun appendMethods :: "http_method list \<Rightarrow> http_method list \<Rightarrow> http_method list" where
  "appendMethods list [] = list"
| "appendMethods list (m # addition) =
     appendMethods (if m \<in> set list then list else list @ [m]) addition"

fun method_name :: "http_method \<Rightarrow> string" where
  "method_name GET = ''GET''"
| "method_name HEAD = ''HEAD''"
| "method_name POST = ''POST''"
| "method_name PUT = ''PUT''"
| "method_name PATCH = ''PATCH''"
| "method_name DELETE = ''DELETE''"
| "method_name OPTIONS = ''OPTIONS''"

fun join_comma :: "string list \<Rightarrow> string" where
  "join_comma [] = []"
| "join_comma [x] = x"
| "join_comma (x # y # ys) = x @ '','' @ join_comma (y # ys)"

definition sendOptionsResponse :: "response \<Rightarrow> http_method list \<Rightarrow> response" where
  "sendOptionsResponse res options = send (join_comma (map method_name options)) res"

text \<open>
  The loop over the routes: \<open>layerError\<close> records a failed decoding, \<open>options\<close> is the
  list collected for an OPTIONS request.
\<close>

fun handle_next ::
  "(string \<Rightarrow> string option) \<Rightarrow> 'a route list \<Rightarrow> bool \<Rightarrow> http_method list
     \<Rightarrow> 'a request_scheme \<Rightarrow> response \<Rightarrow> outcome" where
  "handle_next dec [] layerError options req res =
     (if layerError then ParamError
      else if req_method req = OPTIONS \<and> options \<noteq> []
        then Responded (sendOptionsResponse res options)
      else Unhandled)"
| "handle_next dec (r # rs) layerError options req res =
     (case match_path (compile_path (route_path r)) (req_path req) of
        None \<Rightarrow> handle_next dec rs layerError options req res
      | Some kvs \<Rightarrow>
          (case decode_params dec Map.empty kvs of
             None \<Rightarrow> handle_next dec rs True options req res
           | Some ps \<Rightarrow>
               if layerError then handle_next dec rs layerError options req res
               else if handles_method r (req_method req)
                 then Responded (route_handle r (req\<lparr>req_params := ps\<rparr>) res)
               else handle_next dec rs layerError
                      (if req_method req = OPTIONS
                       then appendMethods options (route_options r) else options)
                      req res))"

text \<open>
  The entry point of the router: the loop starts with the empty list of options; the
  flag is the error the router was entered with.
\<close>

definition handle ::
  "(string \<Rightarrow> string option) \<Rightarrow> 'a route list \<Rightarrow> bool \<Rightarrow> 'a request_scheme \<Rightarrow> response
     \<Rightarrow> outcome" where
  "handle dec rs layerError req res = handle_next dec rs layerError [] req res"

text \<open>A fresh response object: the status code is 200 until a handler changes it.\<close>

definition new_response :: response where
  "new_response = \<lparr>statusCode = 200, sent_body = None\<rparr>"

section \<open>Properties\<close>

subsection \<open>Helper lemmas\<close>

lemma sent_response:
  "send chunk (status code res) = \<lparr>statusCode = code, sent_body = Some chunk\<rparr>"
  by (cases res) (simp add: send_def status_def)

lemma handle_next_responded:
  "handle_next dec rs e opts req res = Responded res' \<Longrightarrow>
     (\<exists>r \<in> set rs. \<exists>kvs ps. handles_method r (req_method req)
        \<and> match_path (compile_path (route_path r)) (req_path req) = Some kvs
        \<and> decode_params dec Map.empty kvs = Some ps
        \<and> res' = route_handle r (req\<lparr>req_params := ps\<rparr>) res)
     \<or> (req_method req = OPTIONS \<and> (\<exists>os. res' = sendOptionsResponse res os))"
proof (induction rs arbitrary: e opts)
  case Nil
  then show ?case by (auto split: if_splits)
next
  case (Cons r rs)
  show ?case
  proof (cases "match_path (compile_path (route_path r)) (req_path req)")
    case None
    with Cons.prems have "handle_next dec rs e opts req res = Responded res'" by simp
    from Cons.IH [OF this] show ?thesis by auto
  next
    case (Some kvs)
    note m = Some
    show ?thesis
    proof (cases "decode_params dec Map.empty kvs")
      case None
      with m Cons.prems have "handle_next dec rs True opts req res = Responded res'" by simp
      from Cons.IH [OF this] show ?thesis by auto
    next
      case (Some ps)
      show ?thesis
      proof (cases "\<not> e \<and> handles_method r (req_method req)")
        case True
        with m Some Cons.prems have "res' = route_handle r (req\<lparr>req_params := ps\<rparr>) res"
          by simp
        with True m Some show ?thesis by auto
      next
        case False
        with m Some Cons.prems obtain os where
          "handle_next dec rs e os req res = Responded res'"
          by (auto split: if_splits)
        from Cons.IH [OF this] show ?thesis by auto
      qed
    qed
  qed
qed

lemma handle_responded:
  assumes "handle dec rs e req res = Responded res'" and "req_method req \<noteq> OPTIONS"
  shows "\<exists>r \<in> set rs. \<exists>ps. route_matches r (req_method req) (req_path req)
        \<and> res' = route_handle r (req\<lparr>req_params := ps\<rparr>) res"
  using handle_next_responded [OF assms(1) [unfolded handle_def]] assms(2)
  by (auto simp: route_matches_def)

lemma router_handlers:
  "r \<in> set router \<Longrightarrow>
     route_handle r = get_organizations \<or> route_handle r = post_organizations
     \<or> route_handle r = get_organization_by_id \<or> route_handle r = patch_organizations"
  by (auto simp: router_def)

lemma split_path_nonempty: "split_path p \<noteq> []"
  by (induction p) (auto split: list.splits)

lemma split_path_append_slash:
  "split_path (p @ CHR ''/'' # q) = split_path p @ split_path q"
proof (induction p)
  case Nil
  show ?case by simp
next
  case (Cons c p)
  show ?case
  proof (cases "c = CHR ''/''")
    case True
    with Cons show ?thesis by simp
  next
    case False
    obtain s ss where sp: "split_path p = s # ss"
      using split_path_nonempty [of p] by (cases "split_path p") auto
    with False Cons show ?thesis by simp
  qed
qed

lemma split_path_singleton_empty: "split_path p = [[]] \<Longrightarrow> p = []"
  by (cases p) (auto split: if_splits list.splits simp: split_path_nonempty)

lemma match_segments_length: "match_segments ts ss = Some kvs \<Longrightarrow> length ss = length ts"
proof (induction ts ss arbitrary: kvs rule: match_segments.induct)
  case (2 l ts s ss)
  then show ?case by (auto split: if_splits)
next
  case (3 n ts s ss)
  then show ?case by (auto split: if_splits option.splits)
qed simp_all

lemma match_path_length:
  assumes "match_path ts p = Some kvs"
  shows "length (split_path p) = length ts
     \<or> (length (split_path p) = Suc (length ts) \<and> last (split_path p) = [])"
proof (cases "match_segments ts (split_path p)")
  case (Some a)
  then show ?thesis using match_segments_length by blast
next
  case None
  with assms have l: "last (split_path p) = []"
    and m: "match_segments ts (butlast (split_path p)) = Some kvs"
    by (auto simp: match_path_def Let_def split: if_splits)
  from match_segments_length [OF m] split_path_nonempty [of p]
  have "length (split_path p) = Suc (length ts)"
    by (cases "split_path p") (simp_all del: butlast.simps)
  with l show ?thesis by simp
qed

lemma split_path_static:
  "split_path (''/api/v1/organizations/'' @ organizationId)
     = [[], ''api'', ''v1'', ''organizations''] @ split_path organizationId"
  using split_path_append_slash [of "''/api/v1/organizations''" organizationId] by simp

lemma compile_path_static:
  "compile_path ''/api/v1/organizations''
     = [Lit [], Lit ''api'', Lit ''v1'', Lit ''organizations'']"
  by (simp add: compile_path_def)

lemma compile_path_by_id:
  "compile_path ''/api/v1/organizations/:organizationId''
     = [Lit [], Lit ''api'', Lit ''v1'', Lit ''organizations'', Param ''organizationId'']"
  by (simp add: compile_path_def)

lemma static_no_match:
  assumes "organizationId \<noteq> []"
  shows "match_path (compile_path ''/api/v1/organizations'')
           (''/api/v1/organizations/'' @ organizationId) = None"
proof (rule ccontr)
  assume "\<not> ?thesis"
  then obtain kvs where m: "match_path (compile_path ''/api/v1/organizations'')
           (''/api/v1/organizations/'' @ organizationId) = Some kvs" by auto
  from match_path_length [OF m] split_path_nonempty [of organizationId]
  have "length (split_path organizationId) = 1 \<and> last (split_path organizationId) = []"
    by (auto simp: split_path_static compile_path_static)
  then have "split_path organizationId = [[]]"
    by (cases "split_path organizationId") auto
  with assms split_path_singleton_empty show False by blast
qed

lemma split_path_segment: "CHR ''/'' \<notin> set s \<Longrightarrow> split_path s = [s]"
  by (induction s) auto

lemma by_id_match:
  assumes "organizationId \<noteq> []" "CHR ''/'' \<notin> set organizationId"
  shows "match_path (compile_path ''/api/v1/organizations/:organizationId'')
           (''/api/v1/organizations/'' @ organizationId)
         = Some [(''organizationId'', organizationId)]"
  using assms
  by (simp add: match_path_def split_path_static split_path_segment compile_path_by_id)

lemma handles_method_DELETE: "r \<in> set router \<Longrightarrow> \<not> handles_method r DELETE"
  by (auto simp: router_def handles_method_def)

lemma handles_method_PATCH:
  "r \<in> set router \<Longrightarrow> handles_method r PATCH \<Longrightarrow> route_path r = ''/api/v1/organizations''"
  by (auto simp: router_def handles_method_def)

lemma handler_params_only:
  assumes "r \<in> set router"
    and "req_params req1 ''organizationId'' = req_params req2 ''organizationId''"
  shows "route_handle r req1 res = route_handle r req2 res"
  using router_handlers [OF assms(1)] assms(2)
  by (auto simp: get_organizations_def post_organizations_def get_organization_by_id_def
      patch_organizations_def)

lemma handler_static_constant:
  assumes "r \<in> set router" and "route_path r = ''/api/v1/organizations''"
  shows "route_handle r req1 res = route_handle r req2 res"
  using assms
  by (auto simp: router_def get_organizations_def post_organizations_def
      patch_organizations_def)

lemma handle_next_method_path_only:
  assumes "req_method req1 = req_method req2" and "req_path req1 = req_path req2"
    and "\<And>r ps. r \<in> set rs \<Longrightarrow>
           route_handle r (req1\<lparr>req_params := ps\<rparr>) res
             = route_handle r (req2\<lparr>req_params := ps\<rparr>) res"
  shows "handle_next dec rs e opts req1 res = handle_next dec rs e opts req2 res"
  using assms(3)
proof (induction rs arbitrary: e opts)
  case Nil
  show ?case using assms(1) by simp
next
  case (Cons r rs)
  then show ?case using assms(1,2) by (simp split: option.splits)
qed

lemma handle_method_path_only:
  assumes "req_method req1 = req_method req2" and "req_path req1 = req_path req2"
    and "\<And>r ps. r \<in> set rs \<Longrightarrow>
           route_handle r (req1\<lparr>req_params := ps\<rparr>) res
             = route_handle r (req2\<lparr>req_params := ps\<rparr>) res"
  shows "handle dec rs e req1 res = handle dec rs e req2 res"
  unfolding handle_def using assms by (rule handle_next_method_path_only)

lemma handle_get_by_id:
  assumes "req_method req = GET"
    and "req_path req = ''/api/v1/organizations/'' @ organizationId"
    and "organizationId \<noteq> []" and "CHR ''/'' \<notin> set organizationId"
    and "dec organizationId = Some v"
  shows "handle dec router False req res
          = Responded \<lparr>statusCode = 300, sent_body = Some (''API underconstruction '' @ v)\<rparr>"
  using assms static_no_match [OF assms(3)] by_id_match [OF assms(3,4)]
  by (simp add: handle_def router_def handles_method_def get_organization_by_id_def
      sent_response)










subsection \<open>Every request dispatched to a handler is answered with status 300\<close>




subsection \<open>The registered routes\<close>

text \<open>
  Claim C9.  The router registers exactly four routes, in this order: GET and POST on
  \<^verbatim>\<open>/api/v1/organizations\<close>, GET on \<^verbatim>\<open>/api/v1/organizations/:organizationId\<close> and PATCH on
  \<^verbatim>\<open>/api/v1/organizations\<close>.  No route matches a DELETE request, whatever its path, and no
  route matches a PATCH request to \<^verbatim>\<open>/api/v1/organizations/\<close> followed by a non-empty
  organization id; neither request is answered by a handler of the router.
\<close>

theorem organization_routes:
  fixes req :: "'a request_scheme"
  shows
  "map (\<lambda>r. (route_method r, route_path r)) (router :: 'a route list) =
     [(GET, ''/api/v1/organizations''), (POST, ''/api/v1/organizations''),
      (GET, ''/api/v1/organizations/:organizationId''), (PATCH, ''/api/v1/organizations'')]
   \<and> (\<forall>r \<in> set (router :: 'a route list). \<not> route_matches r DELETE p)
   \<and> (req_method req = DELETE \<longrightarrow> handle dec router False req res \<noteq> Responded res')
   \<and> (organizationId \<noteq> [] \<longrightarrow>
        (\<forall>r \<in> set (router :: 'a route list).
           \<not> route_matches r PATCH (''/api/v1/organizations/'' @ organizationId)))
   \<and> (organizationId \<noteq> [] \<and> req_method req = PATCH
        \<and> req_path req = ''/api/v1/organizations/'' @ organizationId \<longrightarrow>
        handle dec router False req res \<noteq> Responded res')"
proof -
  have table: "map (\<lambda>r. (route_method r, route_path r)) (router :: 'a route list) =
     [(GET, ''/api/v1/organizations''), (POST, ''/api/v1/organizations''),
      (GET, ''/api/v1/organizations/:organizationId''), (PATCH, ''/api/v1/organizations'')]"
    by (simp add: router_def)
  have del: "\<not> route_matches r DELETE q" if "r \<in> set router" for r :: "'a route" and q
    using handles_method_DELETE [OF that] by (simp add: route_matches_def)
  have pat: "\<not> route_matches r PATCH (''/api/v1/organizations/'' @ organizationId)"
    if "r \<in> set router" "organizationId \<noteq> []" for r :: "'a route"
    using handles_method_PATCH [OF that(1)] static_no_match [OF that(2)]
    by (auto simp: route_matches_def)
  have no_del: "handle dec router False req res \<noteq> Responded res'" if "req_method req = DELETE"
  proof
    assume "handle dec router False req res = Responded res'"
    from handle_responded [OF this] that del show False by auto
  qed
  have no_pat: "handle dec router False req res \<noteq> Responded res'"
    if "organizationId \<noteq> []" "req_method req = PATCH"
      "req_path req = ''/api/v1/organizations/'' @ organizationId"
  proof
    assume "handle dec router False req res = Responded res'"
    from handle_responded [OF this] that pat show False by auto
  qed
  from table del pat no_del no_pat show ?thesis by blast
qed

theorem organization_routes_witness:
  "''42'' \<noteq> []
   \<and> last router \<in> set (router :: unit route list)
   \<and> \<not> route_matches (last router :: unit route) PATCH ''/api/v1/organizations/42''
   \<and> \<not> route_matches (last router :: unit route) DELETE ''/api/v1/organizations/42''
   \<and> handle Some router False
        \<lparr>req_method = PATCH, req_path = ''/api/v1/organizations/42'', req_params = Map.empty,
         req_body = None\<rparr> new_response = Unhandled
   \<and> handle Some router False
        \<lparr>req_method = DELETE, req_path = ''/api/v1/organizations/42'', req_params = Map.empty,
         req_body = None\<rparr> new_response = Unhandled
   \<and> handle Some router False
        \<lparr>req_method = PATCH, req_path = ''/api/v1/organizations'', req_params = Map.empty,
         req_body = None\<rparr> new_response
       = Responded \<lparr>statusCode = 300, sent_body = Some ''update organization''\<rparr>"
proof -
  have ne: "''42'' \<noteq> []" by simp
  have mem: "last router \<in> set (router :: unit route list)"
    by (simp add: router_def)
  have run: "handle Some router False
        \<lparr>req_method = PATCH, req_path = ''/api/v1/organizations/42'', req_params = Map.empty,
         req_body = None\<rparr> new_response = Unhandled"
     "handle Some router False
        \<lparr>req_method = DELETE, req_path = ''/api/v1/organizations/42'', req_params = Map.empty,
         req_body = None\<rparr> new_response = Unhandled"
     "handle Some router False
        \<lparr>req_method = PATCH, req_path = ''/api/v1/organizations'', req_params = Map.empty,
         req_body = None\<rparr> new_response
       = Responded \<lparr>statusCode = 300, sent_body = Some ''update organization''\<rparr>"
    by (simp_all add: handle_def router_def compile_path_def match_path_def
        handles_method_def patch_organizations_def send_def status_def new_response_def
        to_lower_def)
  from organization_routes [where organizationId = "''42''" and p = "''/api/v1/organizations/42''"
      and 'a = unit] ne mem run
  show ?thesis by simp
qed

subsection \<open>The handlers depend on the organization id alone\<close>

text \<open>
  Claim C10.  A handler is a function of the request and the response object that only
  sets the status and sends a string, so it has no state to change.  Its response depends
  on nothing in the request but the path parameter \<^verbatim>\<open>organizationId\<close>: two requests that
  agree on it get identical responses from every handler, and the handlers of the routes
  without a parameter answer all requests alike.  Through the router, the answer is
  determined by the method and the path, so the request body is never read; a GET of
  \<^verbatim>\<open>/api/v1/organizations/\<close> followed by an id is answered with
  \<^verbatim>\<open>API underconstruction \<close> followed by the decoded id.
\<close>

theorem organization_handlers_deterministic:
  fixes req req_a req_b :: "'a request_scheme"
  shows
  "(\<forall>r \<in> set router.
      req_params req_a ''organizationId'' = req_params req_b ''organizationId'' \<longrightarrow>
      route_handle r req_a res = route_handle r req_b res)
   \<and> (\<forall>r \<in> set router.
        route_path r = ''/api/v1/organizations'' \<longrightarrow>
        route_handle r req_a res = route_handle r req_b res)
   \<and> (req_method req_a = req_method req_b \<and> req_path req_a = req_path req_b \<longrightarrow>
        handle dec router False req_a res = handle dec router False req_b res)
   \<and> (req_method req = GET \<and> req_path req = ''/api/v1/organizations/'' @ organizationId
        \<and> organizationId \<noteq> [] \<and> CHR ''/'' \<notin> set organizationId
        \<and> dec organizationId = Some v \<longrightarrow>
        handle dec router False req res
          = Responded \<lparr>statusCode = 300, sent_body = Some (''API underconstruction '' @ v)\<rparr>)"
proof (intro conjI ballI impI)
  fix r :: "'a route"
  assume "r \<in> set router"
    and "req_params req_a ''organizationId'' = req_params req_b ''organizationId''"
  then show "route_handle r req_a res = route_handle r req_b res"
    by (rule handler_params_only)
next
  fix r :: "'a route"
  assume "r \<in> set router" and "route_path r = ''/api/v1/organizations''"
  then show "route_handle r req_a res = route_handle r req_b res"
    by (rule handler_static_constant)
next
  assume "req_method req_a = req_method req_b \<and> req_path req_a = req_path req_b"
  then show "handle dec router False req_a res = handle dec router False req_b res"
    by (intro handle_method_path_only handler_params_only) simp_all
next
  assume "req_method req = GET \<and> req_path req = ''/api/v1/organizations/'' @ organizationId
        \<and> organizationId \<noteq> [] \<and> CHR ''/'' \<notin> set organizationId
        \<and> dec organizationId = Some v"
  then show "handle dec router False req res
          = Responded \<lparr>statusCode = 300, sent_body = Some (''API underconstruction '' @ v)\<rparr>"
    using handle_get_by_id [of req organizationId dec v res] by blast
qed

theorem organization_handlers_deterministic_witness:
  "handle Some router False
     \<lparr>req_method = GET, req_path = ''/api/v1/organizations/42'', req_params = Map.empty,
      req_body = Some ''first body''\<rparr> new_response
   = handle Some router False
     \<lparr>req_method = GET, req_path = ''/api/v1/organizations/42'',
      req_params = [''organizationId'' \<mapsto> ''7''], req_body = Some ''second body''\<rparr>
     new_response
   \<and> handle Some router False
     \<lparr>req_method = GET, req_path = ''/api/v1/organizations/42'', req_params = Map.empty,
      req_body = Some ''first body''\<rparr> new_response
   = Responded \<lparr>statusCode = 300, sent_body = Some ''API underconstruction 42''\<rparr>
   \<and> hd router \<in> set (router :: unit route list)
   \<and> route_handle (hd router)
        \<lparr>req_method = GET, req_path = ''/api/v1/organizations'', req_params = Map.empty,
         req_body = Some ''first body''\<rparr> new_response
     = route_handle (hd router)
        \<lparr>req_method = POST, req_path = ''/elsewhere'', req_params = Map.empty,
         req_body = Some ''second body''\<rparr> new_response"
proof -
  have mem: "hd router \<in> set (router :: unit route list)"
    and pth: "route_path (hd (router :: unit route list)) = ''/api/v1/organizations''"
    by (simp_all add: router_def)
  have seg: "''42'' \<noteq> []" "CHR ''/'' \<notin> set ''42''" by simp_all
  from organization_handlers_deterministic
    [where req_a = "\<lparr>req_method = GET, req_path = ''/api/v1/organizations/42'',
        req_params = Map.empty, req_body = Some ''first body''\<rparr>"
      and req_b = "\<lparr>req_method = GET, req_path = ''/api/v1/organizations/42'',
        req_params = [''organizationId'' \<mapsto> ''7''], req_body = Some ''second body''\<rparr>"
      and req = "\<lparr>req_method = GET, req_path = ''/api/v1/organizations/42'',
        req_params = Map.empty, req_body = Some ''first body''\<rparr>"
      and organizationId = "''42''" and v = "''42''" and dec = Some and res = new_response]
    seg
  have a: "handle Some router False
     \<lparr>req_method = GET, req_path = ''/api/v1/organizations/42'', req_params = Map.empty,
      req_body = Some ''first body''\<rparr> new_response
   = handle Some router False
     \<lparr>req_method = GET, req_path = ''/api/v1/organizations/42'',
      req_params = [''organizationId'' \<mapsto> ''7''], req_body = Some ''second body''\<rparr>
     new_response"
    and b: "handle Some router False
     \<lparr>req_method = GET, req_path = ''/api/v1/organizations/42'', req_params = Map.empty,
      req_body = Some ''first body''\<rparr> new_response
   = Responded \<lparr>statusCode = 300, sent_body = Some ''API underconstruction 42''\<rparr>"
    by auto
  from organization_handlers_deterministic
    [where req_a = "\<lparr>req_method = GET, req_path = ''/api/v1/organizations'',
        req_params = Map.empty, req_body = Some ''first body''\<rparr>"
      and req_b = "\<lparr>req_method = POST, req_path = ''/elsewhere'', req_params = Map.empty,
         req_body = Some ''second body''\<rparr>" and res = new_response]
    mem pth
  have c: "route_handle (hd router)
        \<lparr>req_method = GET, req_path = ''/api/v1/organizations'', req_params = Map.empty,
         req_body = Some ''first body''\<rparr> new_response
     = route_handle (hd router)
        \<lparr>req_method = POST, req_path = ''/elsewhere'', req_params = Map.empty,
         req_body = Some ''second body''\<rparr> new_response"
    by blast
  from a b c mem show ?thesis by blast
qed

end
